theory Spec2Isabelle
  imports Main
begin

section \<open>JSON values as the Python code sees them\<close>

text \<open>
  \<open>json.load\<close> and \<open>response.json()\<close> produce \<open>None\<close>, \<open>bool\<close>, \<open>int\<close>, \<open>float\<close>,
  \<open>str\<close>, \<open>list\<close> and \<open>dict\<close> values. A dict keeps its insertion order and its keys are
  strings, so it is an association list (its keys distinct). A float is identified by
  its \<open>repr\<close>, which is what an f-string prints for it.
\<close>

datatype json =
    JNull
  | JBool bool
  | JInt int
  | JFloat string
  | JStr string
  | JArr "json list"
  | JObj "(string \<times> json) list"

text \<open>
  The exceptions the annotator can meet, all subclasses of \<open>Exception\<close>. Python runs the
  \<open>assert\<close> statements (the interpreter is not started with \<open>-O\<close>), so a failed one
  raises \<open>AssertionError\<close>. \<open>ConnectionError\<close> and \<open>RetryError\<close> are what \<open>session.post\<close>
  raises when no response comes back.
\<close>

datatype exn =
    JSONDecodeError
  | KeyError json
  | IndexError
  | TypeError
  | AttributeError
  | AssertionError
  | ConnectionError
  | RetryError

text \<open>Truth value of an object, as \<open>assert x\<close> and \<open>if x\<close> test it.\<close>

fun truthy :: "json \<Rightarrow> bool" where
  "truthy JNull = False"
| "truthy (JBool b) = b"
| "truthy (JInt i) = (i \<noteq> 0)"
| "truthy (JFloat r) = (r \<noteq> ''0.0'' \<and> r \<noteq> ''-0.0'')"
| "truthy (JStr s) = (s \<noteq> [])"
| "truthy (JArr xs) = (xs \<noteq> [])"
| "truthy (JObj kvs) = (kvs \<noteq> [])"

text \<open>Decimal digits of an \<open>int\<close>, as \<open>str\<close> prints them.\<close>

fun dec_nat :: "nat \<Rightarrow> string" where
  "dec_nat n =
     (if n < 10 then [''0123456789'' ! n]
      else dec_nat (n div 10) @ [''0123456789'' ! (n mod 10)])"

declare dec_nat.simps [simp del]

definition dec_int :: "int \<Rightarrow> string" where
  "dec_int i = (if i < 0 then CHR ''-'' # dec_nat (nat (- i)) else dec_nat (nat i))"

text \<open>
  The text an f-string field \<open>{v}\<close> inserts, \<open>str(v)\<close>. A \<open>str\<close> is inserted unchanged.
  For a list or a dict it is Python's \<open>repr\<close>, whose quoting and escaping rules are not
  part of this program: it is the parameter \<open>cr\<close>.
\<close>

fun py_str :: "(json \<Rightarrow> string) \<Rightarrow> json \<Rightarrow> string" where
  "py_str cr (JStr s) = s"
| "py_str cr JNull = ''None''"
| "py_str cr (JBool b) = (if b then ''True'' else ''False'')"
| "py_str cr (JInt i) = dec_int i"
| "py_str cr (JFloat r) = r"
| "py_str cr (JArr xs) = cr (JArr xs)"
| "py_str cr (JObj kvs) = cr (JObj kvs)"

text \<open>\<open>v[k]\<close> for a string key \<open>k\<close>: only a dict can be indexed by a string.\<close>

fun subscript_key :: "json \<Rightarrow> string \<Rightarrow> exn + json" where
  "subscript_key (JObj kvs) k =
     (case map_of kvs k of None \<Rightarrow> Inl (KeyError (JStr k)) | Some v \<Rightarrow> Inr v)"
| "subscript_key _ k = Inl TypeError"

text \<open>\<open>v[0]\<close>: the first element of a list, the first character of a string.\<close>

fun subscript_0 :: "json \<Rightarrow> exn + json" where
  "subscript_0 (JArr xs) = (case xs of [] \<Rightarrow> Inl IndexError | x # _ \<Rightarrow> Inr x)"
| "subscript_0 (JStr s) = (case s of [] \<Rightarrow> Inl IndexError | c # _ \<Rightarrow> Inr (JStr [c]))"
| "subscript_0 (JObj kvs) = Inl (KeyError (JInt 0))"
| "subscript_0 _ = Inl TypeError"

text \<open>\<open>len(v)\<close>.\<close>

fun py_len :: "json \<Rightarrow> exn + nat" where
  "py_len (JArr xs) = Inr (length xs)"
| "py_len (JObj kvs) = Inr (length kvs)"
| "py_len (JStr s) = Inr (length s)"
| "py_len _ = Inl TypeError"

text \<open>
  The elements \<open>for x in v\<close> visits: the elements of a list, the keys of a dict, the
  characters of a string.
\<close>

fun py_iter :: "json \<Rightarrow> exn + json list" where
  "py_iter (JArr xs) = Inr xs"
| "py_iter (JObj kvs) = Inr (map (\<lambda>kv. JStr (fst kv)) kvs)"
| "py_iter (JStr s) = Inr (map (\<lambda>c. JStr [c]) s)"
| "py_iter _ = Inl TypeError"

text \<open>\<open>v.get(k, d)\<close>: only a dict has the method.\<close>

fun py_get :: "json \<Rightarrow> string \<Rightarrow> json \<Rightarrow> exn + json" where
  "py_get (JObj kvs) k d = Inr (case map_of kvs k of None \<Rightarrow> d | Some v \<Rightarrow> v)"
| "py_get _ k d = Inl AttributeError"

text \<open>
  \<open>d[k] = v\<close> on a dict: an existing key keeps its place and takes the new value, a new
  key goes to the end.
\<close>

fun dict_set :: "(string \<times> json) list \<Rightarrow> string \<Rightarrow> json \<Rightarrow> (string \<times> json) list" where
  "dict_set [] k v = [(k, v)]"
| "dict_set ((k', v') # kvs) k v =
     (if k' = k then (k, v) # kvs else (k', v') # dict_set kvs k v)"

section \<open>The HTTP session\<close>

text \<open>
  A response as the code reads it: its status code and its body, \<open>None\<close> when the body
  is not JSON (\<open>response.json()\<close> raises then). \<open>response.ok\<close> is false for the
  statuses 400 to 599.
\<close>

record response =
  status_code :: nat
  body :: "json option"

definition ok :: "response \<Rightarrow> bool" where
  "ok r = (\<not> (400 \<le> status_code r \<and> status_code r < 600))"

datatype endpoint = NEMOSERVE_ANNOTATE_ENDPOINT | SAPBERT_ANNOTATE_ENDPOINT

definition NEMOSERVE_MODEL_NAME :: string where
  "NEMOSERVE_MODEL_NAME = ''token_classification''"

definition SAPBERT_MODEL_NAME :: string where
  "SAPBERT_MODEL_NAME = ''sapbert''"

text \<open>
  A call \<open>session.post(url, json={"text": t, "model_name": m})\<close>. The services are the
  parameter \<open>net\<close>: what a call gives back (a response, or the exception it raises) may
  depend on every call made before it, so the state of the world is the list of the calls
  made so far.
\<close>

record request =
  url :: endpoint
  json_text :: json
  json_model_name :: string

type_synonym network = "request list \<Rightarrow> request \<Rightarrow> exn + response"

section \<open>annotate_text\<close>

text \<open>
  The \<open>obj\<close> string of a denotation (line 80): the three subscripts are evaluated in the
  order they are written, and the first one that fails raises.
\<close>

definition obj_string :: "(json \<Rightarrow> string) \<Rightarrow> json \<Rightarrow> exn + string" where
  "obj_string cr closest_match =
     (case subscript_key closest_match ''curie'' of
        Inl e \<Rightarrow> Inl e
      | Inr curie \<Rightarrow>
     (case subscript_key closest_match ''label'' of
        Inl e \<Rightarrow> Inl e
      | Inr label \<Rightarrow>
     (case subscript_key closest_match ''distance_score'' of
        Inl e \<Rightarrow> Inl e
      | Inr score \<Rightarrow>
          Inr (''MESH:'' @ py_str cr curie @ '' ('' @ py_str cr label @ '', score: ''
               @ py_str cr score @ '')''))))"

text \<open>
  One pass of the loop of lines 55 to 87 ends in one of three ways: an exception, the
  \<open>return []\<close> of line 69, or the next iteration, with or without a denotation appended.
\<close>

datatype pass = Raise exn | Return_empty | Continue "json option"

definition sapbert_request :: "json \<Rightarrow> request" where
  "sapbert_request t =
     \<lparr>url = SAPBERT_ANNOTATE_ENDPOINT, json_text = t, json_model_name = SAPBERT_MODEL_NAME\<rparr>"

definition nemoserve_request :: "string \<Rightarrow> request" where
  "nemoserve_request t =
     \<lparr>url = NEMOSERVE_ANNOTATE_ENDPOINT, json_text = JStr t,
      json_model_name = NEMOSERVE_MODEL_NAME\<rparr>"

text \<open>
  What the loop body does once the normalizer has answered with a body that parsed
  (lines 73 to 87). \<open>dict(token)\<close> copies the token, which is a dict here since
  \<open>token['text']\<close> succeeded on it.
\<close>

definition denote :: "(json \<Rightarrow> string) \<Rightarrow> json \<Rightarrow> json \<Rightarrow> pass" where
  "denote cr token result =
     (if \<not> truthy result then Raise AssertionError
      else case py_len result of
        Inl e \<Rightarrow> Raise e
      | Inr n \<Rightarrow>
          if n > 0 then
            (case subscript_0 result of
               Inl e \<Rightarrow> Raise e
             | Inr closest_match \<Rightarrow>
                 (case token of
                    JObj kvs \<Rightarrow>
                      (case obj_string cr closest_match of
                         Inl e \<Rightarrow> Raise e
                       | Inr s \<Rightarrow> Continue (Some (JObj (dict_set kvs ''obj'' (JStr s)))))
                  | _ \<Rightarrow> Raise TypeError))
          else Continue None)"

definition annotate_token ::
  "(json \<Rightarrow> string) \<Rightarrow> network \<Rightarrow> request list \<Rightarrow> json \<Rightarrow> pass \<times> request list" where
  "annotate_token cr net log token =
     (case subscript_key token ''text'' of
        Inl e \<Rightarrow> (Raise e, log)
      | Inr t \<Rightarrow>
          if \<not> truthy t then (Raise AssertionError, log)
          else
            (case net log (sapbert_request t) of
               Inl e \<Rightarrow> (Raise e, log @ [sapbert_request t])
             | Inr response \<Rightarrow>
                 if \<not> ok response then (Return_empty, log @ [sapbert_request t])
                 else
                   (case body response of
                      None \<Rightarrow> (Raise JSONDecodeError, log @ [sapbert_request t])
                    | Some result \<Rightarrow> (denote cr token result, log @ [sapbert_request t]))))"

text \<open>
  The loop over the tokens: \<open>track_sapbert\<close> is the list built so far, \<open>log\<close> the calls
  made so far. The result is what \<open>annotate_text\<close> returns or raises, and the calls made.
\<close>

fun annotate_loop ::
  "(json \<Rightarrow> string) \<Rightarrow> network \<Rightarrow> request list \<Rightarrow> json list \<Rightarrow> json list
     \<Rightarrow> (exn + json list) \<times> request list" where
  "annotate_loop cr net log track_sapbert [] = (Inr track_sapbert, log)"
| "annotate_loop cr net log track_sapbert (token # rest) =
     (case annotate_token cr net log token of
        (Raise e, log') \<Rightarrow> (Inl e, log')
      | (Return_empty, log') \<Rightarrow> (Inr [], log')
      | (Continue None, log') \<Rightarrow> annotate_loop cr net log' track_sapbert rest
      | (Continue (Some denotation), log') \<Rightarrow>
          annotate_loop cr net log' (track_sapbert @ [denotation]) rest)"

definition annotate_text ::
  "(json \<Rightarrow> string) \<Rightarrow> network \<Rightarrow> request list \<Rightarrow> string
     \<Rightarrow> (exn + json list) \<times> request list" where
  "annotate_text cr net log text_in =
     (case net log (nemoserve_request text_in) of
        Inl e \<Rightarrow> (Inl e, log @ [nemoserve_request text_in])
      | Inr response \<Rightarrow>
          if \<not> ok response then (Inr [], log @ [nemoserve_request text_in])
          else
            (case body response of
               None \<Rightarrow> (Inl JSONDecodeError, log @ [nemoserve_request text_in])
             | Some annotated \<Rightarrow>
                 (case subscript_key annotated ''denotations'' of
                    Inl e \<Rightarrow> (Inl e, log @ [nemoserve_request text_in])
                  | Inr track_token_classification \<Rightarrow>
                      (case py_iter track_token_classification of
                         Inl e \<Rightarrow> (Inl e, log @ [nemoserve_request text_in])
                       | Inr tokens \<Rightarrow>
                           annotate_loop cr net (log @ [nemoserve_request text_in]) [] tokens))))"

section \<open>annotate_dds\<close>

text \<open>
  \<open>filename.lower().endswith('.json')\<close>. Only the letters A to Z matter to the test: no
  other character is lowered to one of \<open>.json\<close>.
\<close>

definition lower_char :: "char \<Rightarrow> char" where
  "lower_char c =
     (case map_of (zip ''ABCDEFGHIJKLMNOPQRSTUVWXYZ'' ''abcdefghijklmnopqrstuvwxyz'') c of
        None \<Rightarrow> c
      | Some l \<Rightarrow> l)"

definition str_lower :: "string \<Rightarrow> string" where
  "str_lower s = map lower_char s"

definition endswith :: "string \<Rightarrow> string \<Rightarrow> bool" where
  "endswith s suffix =
     (length suffix \<le> length s \<and> drop (length s - length suffix) s = suffix)"

definition is_json_name :: "string \<Rightarrow> bool" where
  "is_json_name filename = endswith (str_lower filename) ''.json''"

text \<open>
  Lines 116 to 123: the list of fields of a document, under \<open>data_dictionary\<close> directly
  or one level further down.
\<close>

definition get_fields :: "json \<Rightarrow> exn + json" where
  "get_fields doc =
     (case py_get doc ''data_dictionary'' (JObj []) of
        Inl e \<Rightarrow> Inl e
      | Inr dd_outer \<Rightarrow>
          (case dd_outer of
             JArr xs \<Rightarrow> Inr (JArr xs)
           | _ \<Rightarrow> py_get dd_outer ''data_dictionary'' (JObj [])))"

text \<open>
  Lines 131 to 133: \<open>type_format\<close> is only logged, but building it can raise.
  \<open>':' + field['format']\<close> needs a string, and \<open>+=\<close> accepts it on a string or on a list
  (which it extends with the characters).
\<close>

definition type_format :: "json \<Rightarrow> json option \<Rightarrow> exn + json" where
  "type_format ty fmt =
     (case fmt of
        None \<Rightarrow> Inr ty
      | Some (JStr f) \<Rightarrow>
          (case ty of
             JStr t \<Rightarrow> Inr (JStr (t @ '':'' @ f))
           | JArr xs \<Rightarrow> Inr (JArr (xs @ map (\<lambda>c. JStr [c]) ('':'' @ f)))
           | _ \<Rightarrow> Inl TypeError)
      | Some _ \<Rightarrow> Inl TypeError)"

text \<open>Lines 137 to 140: one line per pair of \<open>encodings.items()\<close>, in the dict's order.\<close>

definition encoding_as_str :: "(json \<Rightarrow> string) \<Rightarrow> string \<times> json \<Rightarrow> string" where
  "encoding_as_str cr kv = fst kv @ '': '' @ py_str cr (snd kv)"

definition encodings_as_str :: "(json \<Rightarrow> string) \<Rightarrow> json \<Rightarrow> exn + string" where
  "encodings_as_str cr encodings =
     (case encodings of
        JObj kvs \<Rightarrow> Inr (concat (map (\<lambda>kv. encoding_as_str cr kv @ [CHR 0x0A]) kvs))
      | _ \<Rightarrow> Inl AttributeError)"

text \<open>Line 143.\<close>

definition text_to_annotate :: "(json \<Rightarrow> string) \<Rightarrow> json \<Rightarrow> json \<Rightarrow> string \<Rightarrow> string" where
  "text_to_annotate cr name desc encs =
     py_str cr name @ '': '' @ py_str cr desc @ [CHR 0x0A] @ encs"

text \<open>
  Lines 129 to 143 for one field: its name and the text sent to the annotator, or the
  exception raised on the way (none of these lines is inside the \<open>try\<close>).
\<close>

definition field_text :: "(json \<Rightarrow> string) \<Rightarrow> json \<Rightarrow> exn + (json \<times> string)" where
  "field_text cr field =
     (case py_get field ''name'' (JStr []) of
        Inl e \<Rightarrow> Inl e
      | Inr name \<Rightarrow>
     (case py_get field ''description'' (JStr []) of
        Inl e \<Rightarrow> Inl e
      | Inr desc \<Rightarrow>
     (case py_get field ''type'' (JStr []) of
        Inl e \<Rightarrow> Inl e
      | Inr ty \<Rightarrow>
     (case type_format ty (case field of JObj kvs \<Rightarrow> map_of kvs ''format'' | _ \<Rightarrow> None) of
        Inl e \<Rightarrow> Inl e
      | Inr _ \<Rightarrow>
     (case py_get field ''encodings'' (JObj []) of
        Inl e \<Rightarrow> Inl e
      | Inr encodings \<Rightarrow>
     (case encodings_as_str cr encodings of
        Inl e \<Rightarrow> Inl e
      | Inr encs \<Rightarrow> Inr (name, text_to_annotate cr name desc encs)))))))"

text \<open>
  The counters and the list of \<open>annotate_dds\<close>, with the calls made so far.
  (\<open>count_unannotated_fields\<close> is set to 0 and never read or written again.)
\<close>

record run_state =
  count_files :: nat
  count_fields :: nat
  unannotated_fields :: "string list"
  count_annotations :: nat
  calls :: "request list"

text \<open>
  The body of the loop over the fields (lines 128 to 156). Inside the \<open>try\<close>, the loop
  over the annotations reads \<open>annot['text']\<close> and \<open>annot['obj']\<close>, which every denotation
  has, so it adds their number to \<open>count_annotations\<close>. When \<open>annotate_text\<close> raises, the
  \<open>except\<close> clause only logs.
\<close>

definition process_field ::
  "(json \<Rightarrow> string) \<Rightarrow> network \<Rightarrow> string \<Rightarrow> run_state \<Rightarrow> json \<Rightarrow> exn + run_state" where
  "process_field cr net filename st field =
     (case field_text cr field of
        Inl e \<Rightarrow> Inl e
      | Inr (name, text_in) \<Rightarrow>
          (case annotate_text cr net (calls st) text_in of
             (Inr annotations, log') \<Rightarrow>
               Inr (st\<lparr>count_fields := count_fields st + 1,
                       unannotated_fields :=
                         (if length annotations = 0
                          then unannotated_fields st @ [filename @ '':'' @ py_str cr name]
                          else unannotated_fields st),
                       count_annotations := count_annotations st + length annotations,
                       calls := log'\<rparr>)
           | (Inl e, log') \<Rightarrow>
               Inr (st\<lparr>count_fields := count_fields st + 1, calls := log'\<rparr>)))"

fun process_fields ::
  "(json \<Rightarrow> string) \<Rightarrow> network \<Rightarrow> string \<Rightarrow> run_state \<Rightarrow> json list \<Rightarrow> exn + run_state" where
  "process_fields cr net filename st [] = Inr st"
| "process_fields cr net filename st (field # rest) =
     (case process_field cr net filename st field of
        Inl e \<Rightarrow> Inl e
      | Inr st' \<Rightarrow> process_fields cr net filename st' rest)"

text \<open>
  The body of the loop over the directory (lines 108 to 156). A directory entry is a
  file name with the document \<open>json.load\<close> reads from it, \<open>None\<close> when the file is not
  JSON and \<open>json.load\<close> raises.
\<close>

definition process_file ::
  "(json \<Rightarrow> string) \<Rightarrow> network \<Rightarrow> run_state \<Rightarrow> string \<times> json option \<Rightarrow> exn + run_state" where
  "process_file cr net st entry =
     (if \<not> is_json_name (fst entry) then Inr st
      else
        (case snd entry of
           None \<Rightarrow> Inl JSONDecodeError
         | Some doc \<Rightarrow>
             (case get_fields doc of
                Inl e \<Rightarrow> Inl e
              | Inr dd_fields \<Rightarrow>
                  (case py_len dd_fields of
                     Inl e \<Rightarrow> Inl e
                   | Inr _ \<Rightarrow>
                       (case py_iter dd_fields of
                          Inl e \<Rightarrow> Inl e
                        | Inr fs \<Rightarrow>
                            process_fields cr net (fst entry)
                              (st\<lparr>count_files := count_files st + 1\<rparr>) fs)))))"

fun process_files ::
  "(json \<Rightarrow> string) \<Rightarrow> network \<Rightarrow> run_state \<Rightarrow> (string \<times> json option) list
     \<Rightarrow> exn + run_state" where
  "process_files cr net st [] = Inr st"
| "process_files cr net st (entry # rest) =
     (case process_file cr net st entry of
        Inl e \<Rightarrow> Inl e
      | Inr st' \<Rightarrow> process_files cr net st' rest)"

text \<open>
  \<open>annotate_dds\<close> over the listing of the input directory, in the order \<open>os.listdir\<close>
  gives it: the state at the two final log lines, or the exception that ends the run
  before them. Clearing the output directory and listing the input directory (lines 97,
  98 and 107) are taken as done; logging is not modelled.
\<close>

definition annotate_dds ::
  "(json \<Rightarrow> string) \<Rightarrow> network \<Rightarrow> (string \<times> json option) list \<Rightarrow> exn + run_state" where
  "annotate_dds cr net listing =
     process_files cr net
       \<lparr>count_files = 0, count_fields = 0, unannotated_fields = [],
        count_annotations = 0, calls = []\<rparr> listing"

text \<open>What the two final log lines report: fields, files, annotations, unannotated fields.\<close>

definition summary :: "run_state \<Rightarrow> nat \<times> nat \<times> nat \<times> string list" where
  "summary st = (count_fields st, count_files st, count_annotations st, unannotated_fields st)"

section \<open>The retry policy of the session\<close>






section \<open>Notions used to state the properties\<close>

text \<open>The text of a token, \<open>None\<close> standing for a token that has none.\<close>

definition token_text :: "json \<Rightarrow> json" where
  "token_text token = (case subscript_key token ''text'' of Inr t \<Rightarrow> t | Inl _ \<Rightarrow> JNull)"

text \<open>
  The calls made when the loop of \<open>annotate_text\<close> reaches token number \<open>i\<close>, every token
  before it having been sent to the normalizer: \<open>log\<close> holds the calls made before the loop.
\<close>

definition calls_before :: "request list \<Rightarrow> json list \<Rightarrow> nat \<Rightarrow> request list" where
  "calls_before log tokens i =
     log @ map (\<lambda>token. sapbert_request (token_text token)) (take i tokens)"

text \<open>
  The fields the loop of line 127 visits in a file, when lines 113 to 125 raise nothing;
  a field whose text is built without an exception; a directory listing in which every
  file with a JSON name is read and every field's text is built without an exception.
\<close>

definition file_fields :: "json option \<Rightarrow> json list option" where
  "file_fields content =
     (case content of
        None \<Rightarrow> None
      | Some doc \<Rightarrow>
          (case get_fields doc of
             Inl _ \<Rightarrow> None
           | Inr dd_fields \<Rightarrow>
               (case py_len dd_fields of
                  Inl _ \<Rightarrow> None
                | Inr _ \<Rightarrow>
                    (case py_iter dd_fields of Inl _ \<Rightarrow> None | Inr fs \<Rightarrow> Some fs))))"





section \<open>Example inputs\<close>

text \<open>
  Services that answer a call by its text alone, whatever was called before; a response
  200 with a JSON body; a response 404. No list or dict is formatted in the examples, so
  the \<open>repr\<close> of the examples is never applied.
\<close>

definition services ::
  "(json \<Rightarrow> exn + response) \<Rightarrow> (json \<Rightarrow> exn + response) \<Rightarrow> network" where
  "services nemoserve sapbert log q =
     (case url q of
        NEMOSERVE_ANNOTATE_ENDPOINT \<Rightarrow> nemoserve (json_text q)
      | SAPBERT_ANNOTATE_ENDPOINT \<Rightarrow> sapbert (json_text q))"

definition answer :: "json \<Rightarrow> exn + response" where
  "answer v = Inr \<lparr>status_code = 200, body = Some v\<rparr>"

definition not_found :: "exn + response" where
  "not_found = Inr \<lparr>status_code = 404, body = None\<rparr>"

text \<open>A service that answers every call with 404.\<close>

definition unavailable :: "json \<Rightarrow> exn + response" where
  "unavailable t = not_found"

text \<open>A recognizer whose body has no \<open>denotations\<close>.\<close>

definition recognized_nothing :: "json \<Rightarrow> exn + response" where
  "recognized_nothing t = answer (JObj [])"

definition no_repr :: "json \<Rightarrow> string" where
  "no_repr v = []"

definition token_pain :: json where
  "token_pain = JObj [(''text'', JStr ''pain''), (''obj'', JStr ''biolink:Disease'')]"

definition token_knee :: json where
  "token_knee = JObj [(''id'', JStr ''T2''), (''text'', JStr ''knee'')]"

definition token_blank :: json where
  "token_blank = JObj [(''id'', JStr ''T3''), (''text'', JStr [])]"

definition recognized :: "json list \<Rightarrow> json \<Rightarrow> exn + response" where
  "recognized tokens t = answer (JObj [(''denotations'', JArr tokens)])"

definition cand_pain :: json where
  "cand_pain = JObj [(''label'', JStr ''Pain''), (''curie'', JStr ''D010146''),
                     (''distance_score'', JFloat ''0.0'')]"

definition cand_ache :: json where
  "cand_ache = JObj [(''label'', JStr ''Headache''), (''curie'', JStr ''D006261''),
                     (''distance_score'', JFloat ''0.41'')]"

definition cand_knee :: json where
  "cand_knee = JObj [(''label'', JStr ''Knee''), (''curie'', JStr ''D007717''),
                     (''distance_score'', JInt 0)]"

definition normalized :: "json \<Rightarrow> exn + response" where
  "normalized t =
     (if t = JStr ''pain'' then answer (JArr [cand_pain, cand_ache])
      else answer (JArr [cand_knee]))"

text \<open>A normalizer that finds no candidate for \<open>pain\<close>.\<close>

definition normalized_but_pain :: "json \<Rightarrow> exn + response" where
  "normalized_but_pain t = (if t = JStr ''pain'' then answer (JArr []) else normalized t)"

text \<open>A normalizer whose first candidate has no \<open>label\<close>.\<close>

definition normalized_unlabelled :: "json \<Rightarrow> exn + response" where
  "normalized_unlabelled t = answer (JArr [JObj [(''curie'', JStr ''D010146'')]])"

text \<open>
  A directory of three data dictionaries and a file that is skipped. The recognizer
  answers the second field of the first file with a body that has no \<open>denotations\<close>, and
  every other text with 404.
\<close>

definition field_named :: "string \<Rightarrow> string \<Rightarrow> json" where
  "field_named name desc = JObj [(''name'', JStr name), (''description'', JStr desc)]"

definition three_files :: "(string \<times> json option) list" where
  "three_files =
     [(''a.json'', Some (JObj [(''data_dictionary'',
          JObj [(''data_dictionary'',
            JArr [field_named ''age'' ''Age'', field_named ''pain'' ''Pain score''])])])),
      (''README.md'', None),
      (''b.JSON'', Some (JObj [(''data_dictionary'', JArr [field_named ''sex'' ''Sex''])])),
      (''c.json'', Some (JObj [(''data_dictionary'',
          JObj [(''data_dictionary'', JArr [field_named ''site'' ''Site'']),
                (''title'', JStr ''Sites'')])]))]"

definition recognizer_failing_on_pain :: "json \<Rightarrow> exn + response" where
  "recognizer_failing_on_pain t =
     (if t = JStr (''pain: Pain score'' @ [CHR 0x0A]) then answer (JObj []) else not_found)"

text \<open>A field with encodings, and a directory whose second file is not JSON.\<close>

definition field_sex :: json where
  "field_sex =
     JObj [(''name'', JStr ''sex''), (''description'', JStr ''Sex at birth''),
           (''type'', JStr ''integer''), (''format'', JStr ''int32''),
           (''encodings'', JObj [(''1'', JStr ''Male''), (''2'', JStr ''Female'')])]"

definition broken_listing :: "(string \<times> json option) list" where
  "broken_listing =
     [(''a.json'', Some (JObj [(''data_dictionary'', JArr [field_sex])])),
      (''b.Json'', None)]"


section \<open>Auxiliary lemmas on the annotator\<close>

lemma map_of_dict_set: "map_of (dict_set kvs k v) = (map_of kvs)(k \<mapsto> v)"
  by (induction kvs) (auto simp: fun_eq_iff)

lemma dict_set_new_key:
  "k \<notin> fst ` set kvs \<Longrightarrow> dict_set kvs k v = kvs @ [(k, v)]"
  by (induction kvs) auto


lemma denote_not_skip: "denote cr token result \<noteq> Continue None"
  by (cases result) (auto simp: denote_def split: sum.splits json.splits)





lemma annotate_token_answered:
  "map_of tk ''text'' = Some t \<Longrightarrow> truthy t \<Longrightarrow> net log (sapbert_request t) = Inr r \<Longrightarrow>
   annotate_token cr net log (JObj tk) =
     (if \<not> ok r then Return_empty
      else case body r of None \<Rightarrow> Raise JSONDecodeError
           | Some result \<Rightarrow> denote cr (JObj tk) result,
      log @ [sapbert_request t])"
  by (simp add: annotate_token_def split: option.splits)

lemma denote_empty_list: "denote cr token (JArr []) = Raise AssertionError"
  by (simp add: denote_def)

lemma denote_first:
  "denote cr (JObj tk) (JArr (c # cs)) =
     (case obj_string cr c of Inl e \<Rightarrow> Raise e
      | Inr s \<Rightarrow> Continue (Some (JObj (dict_set tk ''obj'' (JStr s)))))"
  by (simp add: denote_def)

lemma obj_string_ok:
  "map_of ck ''curie'' = Some cu \<Longrightarrow> map_of ck ''label'' = Some la \<Longrightarrow>
   map_of ck ''distance_score'' = Some sc \<Longrightarrow>
   obj_string cr (JObj ck) =
     Inr (''MESH:'' @ py_str cr cu @ '' ('' @ py_str cr la @ '', score: '' @ py_str cr sc @ '')'')"
  by (simp add: obj_string_def)


lemma loop_Raise:
  "annotate_token cr net log token = (Raise e, log') \<Longrightarrow>
   annotate_loop cr net log acc (token # rest) = (Inl e, log')"
  by simp

lemma loop_Return:
  "annotate_token cr net log token = (Return_empty, log') \<Longrightarrow>
   annotate_loop cr net log acc (token # rest) = (Inr [], log')"
  by simp


lemma annotate_text_tokens:
  assumes "net log (nemoserve_request t) = Inr r" and "ok r"
    and "body r = Some (JObj kvs)" and "map_of kvs ''denotations'' = Some (JArr tokens)"
  shows "annotate_text cr net log t =
           annotate_loop cr net (log @ [nemoserve_request t]) [] tokens"
  using assms by (simp add: annotate_text_def)


lemma token_text_truthy:
  "truthy (token_text token) \<Longrightarrow>
   \<exists>tk. token = JObj tk \<and> map_of tk ''text'' = Some (token_text token)"
  by (cases token) (auto simp: token_text_def split: option.splits)

lemma loop_all_matched:
  assumes "\<forall>i<length tokens. truthy (token_text (tokens ! i)) \<and>
             (\<exists>r c cs s. net (calls_before log tokens i) (sapbert_request (token_text (tokens ! i))) = Inr r
                \<and> ok r \<and> body r = Some (JArr (c # cs)) \<and> obj_string cr c = Inr s)"
  shows "\<exists>ds. annotate_loop cr net log acc tokens = (Inr (acc @ ds), calls_before log tokens (length tokens))
           \<and> length ds = length tokens
           \<and> (\<forall>i<length tokens. \<exists>tk r c cs s. tokens ! i = JObj tk
                \<and> net (calls_before log tokens i) (sapbert_request (token_text (tokens ! i))) = Inr r
                \<and> body r = Some (JArr (c # cs)) \<and> obj_string cr c = Inr s
                \<and> ds ! i = JObj (dict_set tk ''obj'' (JStr s)))"
  using assms
proof (induction tokens arbitrary: log acc)
  case Nil
  then show ?case by (simp add: calls_before_def)
next
  case (Cons token rest)
  let ?q = "sapbert_request (token_text token)"
  from Cons.prems have "truthy (token_text token)" by force
  then obtain tk where tk: "token = JObj tk" "map_of tk ''text'' = Some (token_text token)"
    "truthy (token_text token)"
    using token_text_truthy by blast
  from Cons.prems [rule_format, of 0]
  obtain r c cs s where r: "net log ?q = Inr r" "ok r" "body r = Some (JArr (c # cs))"
    "obj_string cr c = Inr s"
    by (auto simp: calls_before_def)
  let ?d = "JObj (dict_set tk ''obj'' (JStr s))"
  have step: "annotate_token cr net log token = (Continue (Some ?d), log @ [?q])"
    using tk r by (simp add: annotate_token_answered denote_first)
  have shift: "calls_before log (token # rest) (Suc i) = calls_before (log @ [?q]) rest i" for i
    by (simp add: calls_before_def)
  have "\<forall>i<length rest. truthy (token_text (rest ! i)) \<and>
          (\<exists>r c cs s. net (calls_before (log @ [?q]) rest i) (sapbert_request (token_text (rest ! i))) = Inr r
             \<and> ok r \<and> body r = Some (JArr (c # cs)) \<and> obj_string cr c = Inr s)"
  proof (intro allI impI)
    fix i assume "i < length rest"
    then have "Suc i < length (token # rest)" by simp
    from Cons.prems [rule_format, OF this] show "truthy (token_text (rest ! i)) \<and>
          (\<exists>r c cs s. net (calls_before (log @ [?q]) rest i) (sapbert_request (token_text (rest ! i))) = Inr r
             \<and> ok r \<and> body r = Some (JArr (c # cs)) \<and> obj_string cr c = Inr s)"
      by (simp add: shift)
  qed
  from Cons.IH [OF this, of "acc @ [?d]"]
  obtain ds where ds: "annotate_loop cr net (log @ [?q]) (acc @ [?d]) rest =
      (Inr ((acc @ [?d]) @ ds), calls_before (log @ [?q]) rest (length rest))"
    "length ds = length rest"
    "\<forall>i<length rest. \<exists>tk r c cs s. rest ! i = JObj tk
        \<and> net (calls_before (log @ [?q]) rest i) (sapbert_request (token_text (rest ! i))) = Inr r
        \<and> body r = Some (JArr (c # cs)) \<and> obj_string cr c = Inr s
        \<and> ds ! i = JObj (dict_set tk ''obj'' (JStr s))"
    by blast
  have "annotate_loop cr net log acc (token # rest) =
      (Inr (acc @ ?d # ds), calls_before log (token # rest) (length (token # rest)))"
    using step ds(1) by (simp add: shift)
  moreover have "length (?d # ds) = length (token # rest)" using ds(2) by simp
  moreover have "\<forall>i<length (token # rest). \<exists>tk r c cs s. (token # rest) ! i = JObj tk
        \<and> net (calls_before log (token # rest) i) (sapbert_request (token_text ((token # rest) ! i))) = Inr r
        \<and> body r = Some (JArr (c # cs)) \<and> obj_string cr c = Inr s
        \<and> (?d # ds) ! i = JObj (dict_set tk ''obj'' (JStr s))"
  proof (intro allI impI)
    fix i assume i: "i < length (token # rest)"
    show "\<exists>tk r c cs s. (token # rest) ! i = JObj tk
        \<and> net (calls_before log (token # rest) i) (sapbert_request (token_text ((token # rest) ! i))) = Inr r
        \<and> body r = Some (JArr (c # cs)) \<and> obj_string cr c = Inr s
        \<and> (?d # ds) ! i = JObj (dict_set tk ''obj'' (JStr s))"
    proof (cases i)
      case 0
      then show ?thesis using tk r by (simp add: calls_before_def)
    next
      case (Suc j)
      with i have "j < length rest" by simp
      from ds(3) [rule_format, OF this] show ?thesis using Suc by (simp add: shift)
    qed
  qed
  ultimately show ?case by blast
qed

lemmas example_defs =
  services_def answer_def not_found_def unavailable_def recognized_nothing_def no_repr_def token_pain_def token_knee_def
  token_blank_def recognized_def cand_pain_def cand_ache_def cand_knee_def normalized_def
  normalized_but_pain_def normalized_unlabelled_def

section \<open>Stage 1 failure\<close>



section \<open>A normalizer that finds no candidate\<close>

text \<open>
  C4 (as amended). When the loop takes a token with a non-empty text, and the normalizer
  answers OK with a body that parses to the empty list, the assertion of line 73 fails:
  \<open>annotate_text\<close> raises \<open>AssertionError\<close> right after that call, whatever denotations
  were built before and whatever tokens remain. The token is not dropped.
\<close>

theorem annotate_loop_no_candidate:
  assumes "map_of tk ''text'' = Some t" and "truthy t"
    and "net log (sapbert_request t) = Inr r" and "ok r" and "body r = Some (JArr [])"
  shows "annotate_loop cr net log track_sapbert (JObj tk # rest)
           = (Inl AssertionError, log @ [sapbert_request t])"
  using assms by (simp add: annotate_token_answered denote_empty_list)

theorem annotate_text_no_candidate_counterexample:
  "annotate_text no_repr (services (recognized [token_pain, token_knee]) normalized_but_pain) []
     ''pain: Knee pain''
   = (Inl AssertionError, [nemoserve_request ''pain: Knee pain'', sapbert_request (JStr ''pain'')])"
  by (simp add: annotate_text_def annotate_token_def denote_def example_defs ok_def
      nemoserve_request_def sapbert_request_def)

theorem annotate_loop_no_candidate_witness:
  "map_of [(''text'', JStr ''pain''), (''obj'', JStr ''biolink:Disease'')] ''text'' = Some (JStr ''pain'')
   \<and> truthy (JStr ''pain'')
   \<and> services (recognized [token_pain, token_knee]) normalized_but_pain
        [nemoserve_request ''pain: Knee pain''] (sapbert_request (JStr ''pain''))
       = Inr \<lparr>status_code = 200, body = Some (JArr [])\<rparr>
   \<and> ok \<lparr>status_code = 200, body = Some (JArr [])\<rparr>
   \<and> annotate_loop no_repr (services (recognized [token_pain, token_knee]) normalized_but_pain)
        [nemoserve_request ''pain: Knee pain''] [] [token_pain, token_knee]
       = (Inl AssertionError, [nemoserve_request ''pain: Knee pain'', sapbert_request (JStr ''pain'')])"
  using annotate_loop_no_candidate
    [of "[(''text'', JStr ''pain''), (''obj'', JStr ''biolink:Disease'')]" "JStr ''pain''"
        "services (recognized [token_pain, token_knee]) normalized_but_pain"
        "[nemoserve_request ''pain: Knee pain'']"
        "\<lparr>status_code = 200, body = Some (JArr [])\<rparr>" no_repr "[]" "[token_knee]"]
  by (simp add: example_defs ok_def sapbert_request_def)

section \<open>Hard failures\<close>




section \<open>Every token matched\<close>

text \<open>
  C3. The recognizer answers OK with a list of \<open>N\<close> tokens, each with a non-empty text,
  and the normalizer answers each of the \<open>N\<close> calls made for them (token \<open>i\<close> after the
  calls for the tokens before it) with an OK response whose body is a non-empty list of
  candidates, the first one having \<open>curie\<close>, \<open>label\<close> and \<open>distance_score\<close>. Then
  \<open>annotate_text\<close> returns \<open>N\<close> denotations, and denotation \<open>i\<close> is the dict of token \<open>i\<close>
  with \<open>obj\<close> set to the string built from the first candidate of the response to the call
  for token \<open>i\<close>: every other key keeps the token's value.
\<close>

theorem annotate_text_all_tokens_matched:
  assumes "net log (nemoserve_request t) = Inr r" and "ok r"
    and "body r = Some (JObj kvs)" and "map_of kvs ''denotations'' = Some (JArr tokens)"
    and "\<forall>i<length tokens. truthy (token_text (tokens ! i))"
    and "\<forall>i<length tokens. \<exists>r' ck cs cu la sc.
           net (calls_before (log @ [nemoserve_request t]) tokens i)
               (sapbert_request (token_text (tokens ! i))) = Inr r'
           \<and> ok r' \<and> body r' = Some (JArr (JObj ck # cs))
           \<and> map_of ck ''curie'' = Some cu \<and> map_of ck ''label'' = Some la
           \<and> map_of ck ''distance_score'' = Some sc"
  shows "\<exists>ds. fst (annotate_text cr net log t) = Inr ds \<and> length ds = length tokens
           \<and> (\<forall>i<length tokens. \<exists>tk dk r' ck cs cu la sc.
                 tokens ! i = JObj tk
               \<and> net (calls_before (log @ [nemoserve_request t]) tokens i)
                     (sapbert_request (token_text (tokens ! i))) = Inr r'
               \<and> body r' = Some (JArr (JObj ck # cs))
               \<and> map_of ck ''curie'' = Some cu \<and> map_of ck ''label'' = Some la
               \<and> map_of ck ''distance_score'' = Some sc
               \<and> ds ! i = JObj dk
               \<and> dk = dict_set tk ''obj''
                        (JStr (''MESH:'' @ py_str cr cu @ '' ('' @ py_str cr la @ '', score: ''
                               @ py_str cr sc @ '')''))
               \<and> map_of dk = (map_of tk)(''obj'' \<mapsto>
                        JStr (''MESH:'' @ py_str cr cu @ '' ('' @ py_str cr la @ '', score: ''
                               @ py_str cr sc @ '')'')))"
proof -
  let ?log = "log @ [nemoserve_request t]"
  have pre: "\<forall>i<length tokens. truthy (token_text (tokens ! i)) \<and>
             (\<exists>r c cs s. net (calls_before ?log tokens i) (sapbert_request (token_text (tokens ! i))) = Inr r
                \<and> ok r \<and> body r = Some (JArr (c # cs)) \<and> obj_string cr c = Inr s)"
  proof (intro allI impI)
    fix i assume i: "i < length tokens"
    from assms(6) [rule_format, OF i] obtain r' ck cs cu la sc where
      "net (calls_before ?log tokens i) (sapbert_request (token_text (tokens ! i))) = Inr r'"
      "ok r'" "body r' = Some (JArr (JObj ck # cs))"
      "map_of ck ''curie'' = Some cu" "map_of ck ''label'' = Some la"
      "map_of ck ''distance_score'' = Some sc"
      by blast
    with assms(5) i obj_string_ok [of ck cu la sc cr]
    show "truthy (token_text (tokens ! i)) \<and>
             (\<exists>r c cs s. net (calls_before ?log tokens i) (sapbert_request (token_text (tokens ! i))) = Inr r
                \<and> ok r \<and> body r = Some (JArr (c # cs)) \<and> obj_string cr c = Inr s)"
      by blast
  qed
  from loop_all_matched [OF pre, of "[]"] obtain ds where
    run: "annotate_loop cr net ?log [] tokens = (Inr ds, calls_before ?log tokens (length tokens))"
    and len: "length ds = length tokens"
    and each: "\<forall>i<length tokens. \<exists>tk r c cs s. tokens ! i = JObj tk
                \<and> net (calls_before ?log tokens i) (sapbert_request (token_text (tokens ! i))) = Inr r
                \<and> body r = Some (JArr (c # cs)) \<and> obj_string cr c = Inr s
                \<and> ds ! i = JObj (dict_set tk ''obj'' (JStr s))"
    by auto
  have "fst (annotate_text cr net log t) = Inr ds"
    using annotate_text_tokens [of net log t r kvs tokens cr] assms(1-4) run by simp
  moreover have "\<forall>i<length tokens. \<exists>tk dk r' ck cs cu la sc.
                 tokens ! i = JObj tk
               \<and> net (calls_before ?log tokens i)
                     (sapbert_request (token_text (tokens ! i))) = Inr r'
               \<and> body r' = Some (JArr (JObj ck # cs))
               \<and> map_of ck ''curie'' = Some cu \<and> map_of ck ''label'' = Some la
               \<and> map_of ck ''distance_score'' = Some sc
               \<and> ds ! i = JObj dk
               \<and> dk = dict_set tk ''obj''
                        (JStr (''MESH:'' @ py_str cr cu @ '' ('' @ py_str cr la @ '', score: ''
                               @ py_str cr sc @ '')''))
               \<and> map_of dk = (map_of tk)(''obj'' \<mapsto>
                        JStr (''MESH:'' @ py_str cr cu @ '' ('' @ py_str cr la @ '', score: ''
                               @ py_str cr sc @ '')''))"
  proof (intro allI impI)
    fix i assume i: "i < length tokens"
    from each [rule_format, OF i] obtain tk r c cs s where a: "tokens ! i = JObj tk"
      "net (calls_before ?log tokens i) (sapbert_request (token_text (tokens ! i))) = Inr r"
      "body r = Some (JArr (c # cs))" "obj_string cr c = Inr s"
      "ds ! i = JObj (dict_set tk ''obj'' (JStr s))"
      by blast
    from assms(6) [rule_format, OF i] obtain r' ck cs' cu la sc where b:
      "net (calls_before ?log tokens i) (sapbert_request (token_text (tokens ! i))) = Inr r'"
      "body r' = Some (JArr (JObj ck # cs'))"
      "map_of ck ''curie'' = Some cu" "map_of ck ''label'' = Some la"
      "map_of ck ''distance_score'' = Some sc"
      by blast
    from a(2,3) b(1,2) have c: "c = JObj ck" by simp
    from a(4) c obj_string_ok [OF b(3-5), of cr]
    have s: "s = ''MESH:'' @ py_str cr cu @ '' ('' @ py_str cr la @ '', score: ''
                               @ py_str cr sc @ '')''"
      by simp
    show "\<exists>tk dk r' ck cs cu la sc.
                 tokens ! i = JObj tk
               \<and> net (calls_before ?log tokens i)
                     (sapbert_request (token_text (tokens ! i))) = Inr r'
               \<and> body r' = Some (JArr (JObj ck # cs))
               \<and> map_of ck ''curie'' = Some cu \<and> map_of ck ''label'' = Some la
               \<and> map_of ck ''distance_score'' = Some sc
               \<and> ds ! i = JObj dk
               \<and> dk = dict_set tk ''obj''
                        (JStr (''MESH:'' @ py_str cr cu @ '' ('' @ py_str cr la @ '', score: ''
                               @ py_str cr sc @ '')''))
               \<and> map_of dk = (map_of tk)(''obj'' \<mapsto>
                        JStr (''MESH:'' @ py_str cr cu @ '' ('' @ py_str cr la @ '', score: ''
                               @ py_str cr sc @ '')''))"
      using a(1,5) b s map_of_dict_set by blast
  qed
  ultimately show ?thesis using len by blast
qed

theorem annotate_text_all_tokens_matched_witness:
  "annotate_text no_repr (services (recognized [token_pain, token_knee]) normalized) []
     ''pain: Knee pain''
   = (Inr [JObj [(''text'', JStr ''pain''), (''obj'', JStr ''MESH:D010146 (Pain, score: 0.0)'')],
           JObj [(''id'', JStr ''T2''), (''text'', JStr ''knee''),
                 (''obj'', JStr ''MESH:D007717 (Knee, score: 0)'')]],
      [nemoserve_request ''pain: Knee pain'', sapbert_request (JStr ''pain''),
       sapbert_request (JStr ''knee'')])"
proof -
  let ?net = "services (recognized [token_pain, token_knee]) normalized"
  let ?r = "\<lparr>status_code = 200, body = Some (JObj [(''denotations'', JArr [token_pain, token_knee])])\<rparr>"
  have h1: "?net [] (nemoserve_request ''pain: Knee pain'') = Inr ?r"
    by (simp add: example_defs nemoserve_request_def)
  have h2: "ok ?r" by (simp add: ok_def)
  have h3: "body ?r = Some (JObj [(''denotations'', JArr [token_pain, token_knee])])" by simp
  have h4: "map_of [(''denotations'', JArr [token_pain, token_knee])] ''denotations''
      = Some (JArr [token_pain, token_knee])" by simp
  have h5: "\<forall>i<length [token_pain, token_knee]. truthy (token_text ([token_pain, token_knee] ! i))"
    by (simp add: less_Suc_eq token_text_def example_defs)
  have h6: "\<forall>i<length [token_pain, token_knee]. \<exists>r' ck cs cu la sc.
           ?net (calls_before ([] @ [nemoserve_request ''pain: Knee pain'']) [token_pain, token_knee] i)
               (sapbert_request (token_text ([token_pain, token_knee] ! i))) = Inr r'
           \<and> ok r' \<and> body r' = Some (JArr (JObj ck # cs))
           \<and> map_of ck ''curie'' = Some cu \<and> map_of ck ''label'' = Some la
           \<and> map_of ck ''distance_score'' = Some sc"
    by (simp add: less_Suc_eq token_text_def example_defs sapbert_request_def ok_def)
  from annotate_text_all_tokens_matched [OF h1 h2 h3 h4 h5 h6, of no_repr]
  show ?thesis
    by (simp add: annotate_text_def annotate_token_def denote_def obj_string_def example_defs
        ok_def nemoserve_request_def sapbert_request_def dec_int_def dec_nat.simps)
qed

section \<open>A token with an empty text\<close>




section \<open>Auxiliary lemmas on the orchestrator\<close>







lemma process_files_unreadable:
  assumes "(filename, None) \<in> set listing" and "is_json_name filename"
  shows "\<exists>e. process_files cr net st listing = Inl e"
  using assms
proof (induction listing arbitrary: st)
  case Nil
  then show ?case by simp
next
  case (Cons entry rest)
  show ?case
  proof (cases "process_file cr net st entry")
    case (Inl e)
    then show ?thesis by simp
  next
    case (Inr st')
    have "entry \<noteq> (filename, None)"
    proof
      assume "entry = (filename, None)"
      with Cons.prems(2) Inr show False by (simp add: process_file_def)
    qed
    with Cons.prems have "(filename, None) \<in> set rest" by auto
    from Cons.IH [OF this Cons.prems(2), of st'] Inr show ?thesis by simp
  qed
qed

lemmas listing_defs =
  three_files_def field_named_def recognizer_failing_on_pain_def field_sex_def broken_listing_def

lemmas run_defs =
  annotate_dds_def process_file_def process_field_def field_text_def type_format_def
  encodings_as_str_def encoding_as_str_def text_to_annotate_def get_fields_def
  is_json_name_def endswith_def str_lower_def lower_char_def summary_def

section \<open>The field whose annotation raises\<close>





section \<open>A file that is not JSON\<close>

text \<open>
  C10. When the directory holds a file whose name ends in \<open>.json\<close>, in any case of the
  letters, and \<open>json.load\<close> raises on it, \<open>annotate_dds\<close> raises: no final state is
  reached. At that file the loop body raises \<open>JSONDecodeError\<close> whatever the state.
\<close>

theorem annotate_dds_unreadable_file:
  assumes "(filename, None) \<in> set listing" and "is_json_name filename"
  shows "(\<exists>e. annotate_dds cr net listing = Inl e)
       \<and> process_file cr net st (filename, None) = Inl JSONDecodeError"
  using process_files_unreadable [OF assms] assms(2)
  by (simp add: annotate_dds_def process_file_def)

theorem annotate_dds_unreadable_file_witness:
  "(''b.Json'', None) \<in> set broken_listing \<and> is_json_name ''b.Json''
   \<and> annotate_dds no_repr (services unavailable unavailable) broken_listing = Inl JSONDecodeError"
proof -
  have h1: "(''b.Json'', None) \<in> set broken_listing" by (simp add: broken_listing_def)
  have h2: "is_json_name ''b.Json''" by (simp add: run_defs)
  from annotate_dds_unreadable_file [OF h1 h2, of no_repr "services unavailable unavailable"] h1 h2
  show ?thesis
    by (simp add: run_defs listing_defs annotate_text_def example_defs ok_def nemoserve_request_def)
qed

section \<open>The two shapes of a data dictionary\<close>

text \<open>
  C7. A document whose \<open>data_dictionary\<close> key holds the list \<open>F\<close> and a document whose
  \<open>data_dictionary\<close> key holds a dict whose \<open>data_dictionary\<close> key holds \<open>F\<close> give the same
  fields, the elements of \<open>F\<close> in order, and the loop body does the same on both files.
\<close>

theorem get_fields_both_shapes:
  assumes "map_of bare ''data_dictionary'' = Some (JArr F)"
    and "map_of nested ''data_dictionary'' = Some (JObj inner)"
    and "map_of inner ''data_dictionary'' = Some (JArr F)"
  shows "get_fields (JObj bare) = Inr (JArr F) \<and> get_fields (JObj nested) = Inr (JArr F)
       \<and> file_fields (Some (JObj bare)) = Some F \<and> file_fields (Some (JObj nested)) = Some F
       \<and> process_file cr net st (filename, Some (JObj bare))
         = process_file cr net st (filename, Some (JObj nested))"
  using assms by (simp add: get_fields_def file_fields_def process_file_def)

theorem get_fields_both_shapes_witness:
  "map_of [(''data_dictionary'', JArr [field_sex])] ''data_dictionary'' = Some (JArr [field_sex])
   \<and> map_of [(''title'', JStr ''Sexes''),
              (''data_dictionary'', JObj [(''data_dictionary'', JArr [field_sex])])]
        ''data_dictionary'' = Some (JObj [(''data_dictionary'', JArr [field_sex])])
   \<and> map_of [(''data_dictionary'', JArr [field_sex])] ''data_dictionary'' = Some (JArr [field_sex])
   \<and> get_fields (JObj [(''data_dictionary'', JArr [field_sex])]) = Inr (JArr [field_sex])
   \<and> get_fields (JObj [(''title'', JStr ''Sexes''),
                        (''data_dictionary'', JObj [(''data_dictionary'', JArr [field_sex])])])
      = Inr (JArr [field_sex])"
  using get_fields_both_shapes
    [of "[(''data_dictionary'', JArr [field_sex])]" "[field_sex]"
        "[(''title'', JStr ''Sexes''),
          (''data_dictionary'', JObj [(''data_dictionary'', JArr [field_sex])])]"
        "[(''data_dictionary'', JArr [field_sex])]"]
  by simp

section \<open>The text sent to the annotator\<close>

text \<open>
  C9. For a field with its name, description and encodings (each with its default when
  the key is absent), whose \<open>format\<close>, if present, is a string next to a string \<open>type\<close>,
  the text is the name, \<open>: \<close>, the description, a newline, and then for each pair of the
  encodings, in the dict's order, the key, \<open>: \<close>, the value and a newline. (\<open>py_str\<close>
  leaves a string as it is.) For a field with no key at all, or with an empty name, an
  empty description and no encodings, the text is \<open>: \<close> and a newline.
\<close>

theorem field_text_concatenation:
  assumes "py_get (JObj kvs) ''name'' (JStr []) = Inr name"
    and "py_get (JObj kvs) ''description'' (JStr []) = Inr desc"
    and "py_get (JObj kvs) ''encodings'' (JObj []) = Inr (JObj encodings)"
    and "map_of kvs ''format'' = None
         \<or> (\<exists>f ty. map_of kvs ''format'' = Some (JStr f)
               \<and> py_get (JObj kvs) ''type'' (JStr []) = Inr (JStr ty))"
  shows "field_text cr (JObj kvs)
           = Inr (name, py_str cr name @ '': '' @ py_str cr desc @ ''\<newline>''
                        @ concat (map (\<lambda>(key, value). key @ '': '' @ py_str cr value @ ''\<newline>'')
                                    encodings))
       \<and> field_text cr (JObj []) = Inr (JStr [], '': \<newline>'')
       \<and> field_text cr (JObj [(''name'', JStr []), (''description'', JStr []),
                               (''encodings'', JObj [])]) = Inr (JStr [], '': \<newline>'')"
proof -
  have enc: "(\<lambda>kv. encoding_as_str cr kv @ ''\<newline>'')
      = (\<lambda>(key, value). key @ '': '' @ py_str cr value @ ''\<newline>'')"
    by (auto simp: encoding_as_str_def fun_eq_iff)
  from assms(4) have tf: "\<exists>x. type_format (case map_of kvs ''type'' of None \<Rightarrow> JStr [] | Some v \<Rightarrow> v)
      (map_of kvs ''format'') = Inr x"
    by (auto simp: type_format_def split: option.splits)
  have "field_text cr (JObj kvs)
           = Inr (name, py_str cr name @ '': '' @ py_str cr desc @ ''\<newline>''
                        @ concat (map (\<lambda>(key, value). key @ '': '' @ py_str cr value @ ''\<newline>'')
                                    encodings))"
    using assms(1-3) tf
    by (auto simp: field_text_def encodings_as_str_def text_to_annotate_def enc
        split: option.splits)
  moreover have "field_text cr (JObj []) = Inr (JStr [], '': \<newline>'')"
    by (simp add: field_text_def type_format_def encodings_as_str_def text_to_annotate_def)
  moreover have "field_text cr (JObj [(''name'', JStr []), (''description'', JStr []),
                               (''encodings'', JObj [])]) = Inr (JStr [], '': \<newline>'')"
    by (simp add: field_text_def type_format_def encodings_as_str_def text_to_annotate_def)
  ultimately show ?thesis by blast
qed

theorem field_text_concatenation_witness:
  "py_get field_sex ''name'' (JStr []) = Inr (JStr ''sex'')
   \<and> py_get field_sex ''description'' (JStr []) = Inr (JStr ''Sex at birth'')
   \<and> py_get field_sex ''encodings'' (JObj [])
       = Inr (JObj [(''1'', JStr ''Male''), (''2'', JStr ''Female'')])
   \<and> field_text no_repr field_sex
       = Inr (JStr ''sex'', ''sex: Sex at birth\<newline>1: Male\<newline>2: Female\<newline>'')"
proof -
  let ?kvs = "[(''name'', JStr ''sex''), (''description'', JStr ''Sex at birth''),
           (''type'', JStr ''integer''), (''format'', JStr ''int32''),
           (''encodings'', JObj [(''1'', JStr ''Male''), (''2'', JStr ''Female'')])]"
  have h1: "py_get (JObj ?kvs) ''name'' (JStr []) = Inr (JStr ''sex'')" by simp
  have h2: "py_get (JObj ?kvs) ''description'' (JStr []) = Inr (JStr ''Sex at birth'')" by simp
  have h3: "py_get (JObj ?kvs) ''encodings'' (JObj [])
       = Inr (JObj [(''1'', JStr ''Male''), (''2'', JStr ''Female'')])" by simp
  have h4: "map_of ?kvs ''format'' = None
         \<or> (\<exists>f ty. map_of ?kvs ''format'' = Some (JStr f)
               \<and> py_get (JObj ?kvs) ''type'' (JStr []) = Inr (JStr ty))" by simp
  from field_text_concatenation [OF h1 h2 h3 h4, of no_repr] h1 h2 h3
  show ?thesis by (simp add: field_sex_def)
qed

section \<open>Auxiliary lemmas on the retry loop\<close>




section \<open>Retried requests\<close>




end
